theory Spec2Isabelle
  imports Complex_Main "HOL-Library.Sublist"
begin

section \<open>Data model (src/types/data.ts)\<close>

text \<open>
  The TypeScript type \<open>number\<close> is modelled by \<^typ>\<open>real\<close>: the records hold finite
  numbers (the loader's \<open>parseNumber\<close> turns unparsable text into 0) and the arithmetic
  of the engine is read as exact arithmetic, so rounding, overflow and NaN are outside
  the model. Every division of the engine is guarded by a test on its denominator or
  divides by a constant. A \<open>string\<close> is a \<^typ>\<open>string\<close> (a list of characters), and
  a field of type \<open>string | null\<close> is a \<^typ>\<open>string option\<close> with \<open>None\<close> for \<open>null\<close>.
\<close>

record RecipeRunStats =
  recipe :: string
  sourceFileCount :: real
  sourceFileChangedCount :: real
  cumulativeScanningTime :: real
  percentile99ScanningTime :: real
  maxScanningTime :: real
  cumulativeEditTime :: real
  percentile99EditTime :: real
  maxEditTime :: real

record SourceFileResults =
  sourcePathBefore :: "string option"
  sourcePathAfter :: "string option"
  recipeChanges :: string
  estimatedTimeSaving :: real
  cycle :: real

record ROIMetrics =
  totalTimeSaved :: real
  totalExecutionTime :: real
  roi :: real
  efficiency :: real
  impactPerFile :: real
  totalFilesProcessed :: real
  totalFilesChanged :: real

text \<open>
  \<open>RecipePerformanceMetrics extends RecipeRunStats\<close>. Its \<open>scanEditRatio\<close> is the one
  place where the engine writes the literal \<open>Infinity\<close>, so this field has the type
  \<open>number\<close>: a finite real or positive infinity.
\<close>

datatype number = Num real | Infinity

record RecipePerformanceMetrics = RecipeRunStats +
  totalExecutionTimeMs :: real
  scanEditRatio :: number
  changeEfficiency :: real
  totalTimeSaved :: real
  recipeROI :: real

section \<open>JavaScript helpers\<close>

text \<open>Truthiness of a \<open>string | null\<close> value: \<open>null\<close> and the empty string are falsy.\<close>

fun truthy :: "string option \<Rightarrow> bool" where
  "truthy None = False"
| "truthy (Some s) = (s \<noteq> [])"

text \<open>\<open>a || b\<close> on \<open>string | null\<close> operands: the left operand when it is truthy.\<close>

definition js_or :: "string option \<Rightarrow> string option \<Rightarrow> string option" where
  "js_or a b = (if truthy a then a else b)"

text \<open>
  A \<open>Set\<close> keeps its elements in insertion order without duplicates: a distinct list.
  \<open>set_add\<close> is \<open>Set.prototype.add\<close>, \<open>new_Set xs\<close> is \<open>new Set(xs)\<close>, the \<open>size\<close>
  is the length and \<open>Array.from\<close> is the list itself.
\<close>

definition set_add :: "'a \<Rightarrow> 'a list \<Rightarrow> 'a list" where
  "set_add x s = (if x \<in> set s then s else s @ [x])"

definition new_Set :: "'a list \<Rightarrow> 'a list" where
  "new_Set xs = foldl (\<lambda>s x. set_add x s) [] xs"

section \<open>DataProcessor.calculateROIMetrics\<close>

definition calculateROIMetrics ::
  "RecipeRunStats list \<Rightarrow> SourceFileResults list \<Rightarrow> ROIMetrics" where
  "calculateROIMetrics recipeStats sourceResults =
    (let totalTimeSaved = foldl (\<lambda>sum result. sum + estimatedTimeSaving result) 0 sourceResults;
         totalExecutionTime = foldl (\<lambda>sum stats.
            (let scanTimeMs = cumulativeScanningTime stats / 1000000;
                 editTimeMs = cumulativeEditTime stats / 1000000
             in sum + (scanTimeMs + editTimeMs) / 1000)) 0 recipeStats;
         roi = (if totalExecutionTime > 0 then (totalTimeSaved / totalExecutionTime) * 100 else 0);
         totalFilesProcessed = foldl (\<lambda>sum stats. sum + sourceFileCount stats) 0 recipeStats;
         uniqueFilesChanged = real (length (new_Set
            (map (\<lambda>result. js_or (sourcePathAfter result) (sourcePathBefore result))
              (filter (\<lambda>result. truthy (js_or (sourcePathAfter result) (sourcePathBefore result)))
                sourceResults))));
         efficiency = (if totalFilesProcessed > 0
                       then (uniqueFilesChanged / totalFilesProcessed) * 100 else 0);
         impactPerFile = (if uniqueFilesChanged > 0 then totalTimeSaved / uniqueFilesChanged else 0)
     in \<lparr> ROIMetrics.totalTimeSaved = totalTimeSaved,
          totalExecutionTime = totalExecutionTime,
          roi = roi,
          efficiency = efficiency,
          impactPerFile = impactPerFile,
          totalFilesProcessed = totalFilesProcessed,
          totalFilesChanged = uniqueFilesChanged \<rparr>)"

text \<open>
  The count of the specification's words: the distinct non-null values of
  \<open>sourcePathAfter ?? sourcePathBefore\<close>. The nullish operator \<open>??\<close> takes its right
  operand only when the left one is \<open>null\<close>.
\<close>

definition nullish_or :: "string option \<Rightarrow> string option \<Rightarrow> string option" where
  "nullish_or a b = (case a of None \<Rightarrow> b | Some s \<Rightarrow> Some s)"

definition spec_totalFilesChanged :: "SourceFileResults list \<Rightarrow> nat" where
  "spec_totalFilesChanged sourceResults =
     length (remdups (filter (\<lambda>v. v \<noteq> None)
       (map (\<lambda>result. nullish_or (sourcePathAfter result) (sourcePathBefore result)) sourceResults)))"

section \<open>DataProcessor.enrichRecipeStats\<close>

text \<open>The object spread \<open>{...stats, ...}\<close> copies the nine fields of \<open>stats\<close> into a new object.\<close>

definition enrichRecipeStats ::
  "RecipeRunStats list \<Rightarrow> SourceFileResults list \<Rightarrow> RecipePerformanceMetrics list" where
  "enrichRecipeStats recipeStats sourceResults =
    map (\<lambda>stats.
      (let totalExecutionTimeMs = (cumulativeScanningTime stats + cumulativeEditTime stats) / 1000000;
           scanEditRatio = (if cumulativeEditTime stats > 0
                            then Num (cumulativeScanningTime stats / cumulativeEditTime stats)
                            else if cumulativeScanningTime stats > 0 then Infinity else Num 0);
           changeEfficiency = (if sourceFileCount stats > 0
                               then (sourceFileChangedCount stats / sourceFileCount stats) * 100
                               else 0);
           totalTimeSaved = foldl (\<lambda>sum result. sum + estimatedTimeSaving result) 0
                              (filter (\<lambda>result. recipeChanges result = recipe stats) sourceResults);
           executionTimeSec = totalExecutionTimeMs / 1000;
           recipeROI = (if executionTimeSec > 0 then (totalTimeSaved / executionTimeSec) * 100 else 0)
       in \<lparr> recipe = recipe stats,
            sourceFileCount = sourceFileCount stats,
            sourceFileChangedCount = sourceFileChangedCount stats,
            cumulativeScanningTime = cumulativeScanningTime stats,
            percentile99ScanningTime = percentile99ScanningTime stats,
            maxScanningTime = maxScanningTime stats,
            cumulativeEditTime = cumulativeEditTime stats,
            percentile99EditTime = percentile99EditTime stats,
            maxEditTime = maxEditTime stats,
            totalExecutionTimeMs = totalExecutionTimeMs,
            scanEditRatio = scanEditRatio,
            changeEfficiency = changeEfficiency,
            totalTimeSaved = totalTimeSaved,
            recipeROI = recipeROI \<rparr>)) recipeStats"

section \<open>DataProcessor.extractChangeType\<close>

text \<open>\<open>str_includes s t\<close> is \<open>s.includes(t)\<close>: \<open>t\<close> occurs in \<open>s\<close> as a contiguous substring.\<close>

fun str_includes :: "string \<Rightarrow> string \<Rightarrow> bool" where
  "str_includes [] t = (t = [])"
| "str_includes (c # cs) t = (prefix t (c # cs) \<or> str_includes cs t)"

text \<open>
  \<open>str_split sep s\<close> is \<open>s.split(sep)\<close> for a separator of one character: the empty string
  gives one empty segment, and a separator at either end gives an empty segment there.
\<close>

fun str_split :: "char \<Rightarrow> string \<Rightarrow> string list" where
  "str_split sep [] = [[]]"
| "str_split sep (c # cs) =
     (if c = sep then [] # str_split sep cs
      else (case str_split sep cs of
              [] \<Rightarrow> [[c]]
            | p # ps \<Rightarrow> (c # p) # ps))"

text \<open>
  \<open>parts[i] || 'Other'\<close>: a string that is the empty string, and a read past the end of
  the array (\<open>undefined\<close>), are falsy.
\<close>

definition part_or_Other :: "string list \<Rightarrow> int \<Rightarrow> string" where
  "part_or_Other parts i =
     (if 0 \<le> i \<and> i < int (length parts) \<and> parts ! nat i \<noteq> [] then parts ! nat i
      else ''Other'')"

definition extractChangeType :: "string \<Rightarrow> string" where
  "extractChangeType recipeName =
    (if recipeName = [] then ''Unknown''
     else if str_includes recipeName ''migrate'' then ''Migration''
     else if str_includes recipeName ''OrderImports'' then ''Import Organization''
     else if str_includes recipeName ''StringFormatted'' then ''String Formatting''
     else if str_includes recipeName ''CompositeRecipe'' then ''Composite''
     else if str_includes recipeName ''security'' then ''Security''
     else if str_includes recipeName ''junit'' then ''Testing''
     else if str_includes recipeName ''logging'' then ''Logging''
     else (let parts = str_split (CHR ''.'') recipeName
           in if length parts > 2 then part_or_Other parts (int (length parts) - 2)
              else ''Other''))"

text \<open>
  The classification in the specification's words: the ordered substring tests, then
  the second-to-last dot-separated segment of a name with more than 2 segments, then
  \<open>Other\<close>.
\<close>

definition spec_classify :: "string \<Rightarrow> string" where
  "spec_classify recipeName =
    (if recipeName = [] then ''Unknown''
     else if sublist ''migrate'' recipeName then ''Migration''
     else if sublist ''OrderImports'' recipeName then ''Import Organization''
     else if sublist ''StringFormatted'' recipeName then ''String Formatting''
     else if sublist ''CompositeRecipe'' recipeName then ''Composite''
     else if sublist ''security'' recipeName then ''Security''
     else if sublist ''junit'' recipeName then ''Testing''
     else if sublist ''logging'' recipeName then ''Logging''
     else if length (str_split (CHR ''.'') recipeName) > 2
       then str_split (CHR ''.'') recipeName ! (length (str_split (CHR ''.'') recipeName) - 2)
     else ''Other'')"

section \<open>DataProcessor.aggregateByChangeType\<close>

text \<open>
  A \<open>Map\<close> iterates in the order in which its keys were first set: an association list
  with distinct keys. \<open>map_set\<close> is \<open>Map.prototype.set\<close> (a key that is present keeps
  its place), \<open>map_get\<close> is \<open>get\<close> with \<open>None\<close> for \<open>undefined\<close>, \<open>map_has\<close> is \<open>has\<close>.
\<close>

fun map_set :: "'k \<Rightarrow> 'v \<Rightarrow> ('k \<times> 'v) list \<Rightarrow> ('k \<times> 'v) list" where
  "map_set k v [] = [(k, v)]"
| "map_set k v ((k', v') # m) = (if k' = k then (k, v) # m else (k', v') # map_set k v m)"

fun map_get :: "('k \<times> 'v) list \<Rightarrow> 'k \<Rightarrow> 'v option" where
  "map_get [] k = None"
| "map_get ((k', v') # m) k = (if k' = k then Some v' else map_get m k)"

definition map_has :: "('k \<times> 'v) list \<Rightarrow> 'k \<Rightarrow> bool" where
  "map_has m k = (map_get m k \<noteq> None)"

text \<open>The value type of \<open>aggregationMap\<close>.\<close>

record agg =
  filesAffected :: "string list"
  timeSaved :: real
  executionTime :: real
  recipes :: "string list"

record ChangeTypeAggregation =
  changeType :: string
  filesAffected :: real
  timeSaved :: real
  executionTime :: real
  recipes :: "string list"

text \<open>
  The body of the first \<open>forEach\<close>. The bucket is an object held by the map, so the
  updates of its fields are updates of the map's entry. \<open>get(changeType)!\<close> cannot be
  \<open>undefined\<close> after the \<open>set\<close> before it; the model leaves the map as it is there.
\<close>

definition addSourceResult ::
  "(string \<times> agg) list \<Rightarrow> SourceFileResults \<Rightarrow> (string \<times> agg) list" where
  "addSourceResult aggregationMap result =
    (let changeType = extractChangeType (recipeChanges result);
         m1 = (if \<not> map_has aggregationMap changeType
               then map_set changeType
                      \<lparr> agg.filesAffected = [], timeSaved = 0, executionTime = 0, recipes = [] \<rparr>
                      aggregationMap
               else aggregationMap)
     in case map_get m1 changeType of
          None \<Rightarrow> m1
        | Some a \<Rightarrow>
            (let a1 = (case sourcePathAfter result of
                         None \<Rightarrow> a
                       | Some p \<Rightarrow> if p \<noteq> [] then a\<lparr> agg.filesAffected := set_add p (agg.filesAffected a) \<rparr>
                                   else a);
                 a2 = a1\<lparr> agg.timeSaved := agg.timeSaved a1 + estimatedTimeSaving result \<rparr>;
                 a3 = a2\<lparr> agg.recipes := set_add (recipeChanges result) (agg.recipes a2) \<rparr>
             in map_set changeType a3 m1))"

text \<open>The body of the second \<open>forEach\<close>: nothing happens when \<open>get\<close> gives \<open>undefined\<close>.\<close>

definition addRecipeStats ::
  "(string \<times> agg) list \<Rightarrow> RecipeRunStats \<Rightarrow> (string \<times> agg) list" where
  "addRecipeStats aggregationMap stats =
    (let changeType = extractChangeType (recipe stats)
     in case map_get aggregationMap changeType of
          None \<Rightarrow> aggregationMap
        | Some a \<Rightarrow>
            map_set changeType
              (a\<lparr> agg.executionTime := agg.executionTime a
                    + (cumulativeScanningTime stats + cumulativeEditTime stats) / 1000000 \<rparr>)
              aggregationMap)"

definition aggregateByChangeType ::
  "RecipeRunStats list \<Rightarrow> SourceFileResults list \<Rightarrow> ChangeTypeAggregation list" where
  "aggregateByChangeType recipeStats sourceResults =
    (let m1 = foldl addSourceResult [] sourceResults;
         m2 = foldl addRecipeStats m1 recipeStats
     in map (\<lambda>(changeType, d).
          \<lparr> changeType = changeType,
            filesAffected = real (length (agg.filesAffected d)),
            timeSaved = agg.timeSaved d,
            executionTime = agg.executionTime d,
            recipes = agg.recipes d \<rparr>) m2)"

section \<open>DataProcessor.calculateTimeSeries\<close>

text \<open>The value type of \<open>cycleMap\<close>, the rows of \<open>cycles\<close> and the rows of the result.\<close>

record cycleData =
  timeSaved :: real
  files :: "string list"
  recipes :: "string list"

record cycleRow =
  cycle :: real
  timeSaved :: real
  filesChanged :: real
  recipes :: "string list"

record timeSeriesPoint =
  cycle :: real
  cumulativeTimeSaved :: real
  filesChanged :: real
  recipes :: "string list"

definition addCycleResult ::
  "(real \<times> cycleData) list \<Rightarrow> SourceFileResults \<Rightarrow> (real \<times> cycleData) list" where
  "addCycleResult cycleMap result =
    (let m1 = (if \<not> map_has cycleMap (SourceFileResults.cycle result)
               then map_set (SourceFileResults.cycle result)
                      \<lparr> cycleData.timeSaved = 0, files = [], recipes = [] \<rparr> cycleMap
               else cycleMap)
     in case map_get m1 (SourceFileResults.cycle result) of
          None \<Rightarrow> m1
        | Some c \<Rightarrow>
            (let c1 = c\<lparr> cycleData.timeSaved := cycleData.timeSaved c + estimatedTimeSaving result \<rparr>;
                 c2 = (case sourcePathAfter result of
                         None \<Rightarrow> c1
                       | Some p \<Rightarrow> if p \<noteq> [] then c1\<lparr> files := set_add p (files c1) \<rparr> else c1);
                 c3 = c2\<lparr> cycleData.recipes := set_add (recipeChanges result) (cycleData.recipes c2) \<rparr>
             in map_set (SourceFileResults.cycle result) c3 m1))"

text \<open>
  The last \<open>map\<close> reads and updates the variable \<open>cumulativeTimeSaved\<close> of the enclosing
  function: its value \<open>running\<close> is the first argument.
\<close>

fun cumulate :: "real \<Rightarrow> cycleRow list \<Rightarrow> timeSeriesPoint list" where
  "cumulate running [] = []"
| "cumulate running (c # cs) =
     (let running' = running + cycleRow.timeSaved c
      in \<lparr> cycle = cycleRow.cycle c,
           cumulativeTimeSaved = running',
           filesChanged = cycleRow.filesChanged c,
           recipes = cycleRow.recipes c \<rparr> # cumulate running' cs)"

text \<open>
  The rows computed from the sorted entries: the \<open>map\<close> that builds \<open>cycles\<close> and the
  \<open>map\<close> of the \<open>return\<close>.
\<close>

definition timeSeriesOf :: "(real \<times> cycleData) list \<Rightarrow> timeSeriesPoint list" where
  "timeSeriesOf entries =
    (let cycles = map (\<lambda>(cycleNum, d).
                    \<lparr> cycleRow.cycle = cycleNum,
                      timeSaved = cycleData.timeSaved d,
                      filesChanged = real (length (files d)),
                      recipes = cycleData.recipes d \<rparr>) entries
     in cumulate 0 cycles)"

text \<open>
  \<open>sort(([a], [b]) => a - b)\<close> is a stable sort of the entries by their keys in
  ascending order: \<^const>\<open>sort_key\<close> on the first components.
\<close>

definition calculateTimeSeries :: "SourceFileResults list \<Rightarrow> timeSeriesPoint list" where
  "calculateTimeSeries sourceResults =
    (let cycleMap = foldl addCycleResult [] sourceResults
     in timeSeriesOf (sort_key fst cycleMap))"

section \<open>DataProcessor.formatDuration\<close>

text \<open>
  \<open>Math.round\<close> rounds to the nearest integer, a half upwards. The remainder \<open>a % b\<close>
  has the sign of \<open>a\<close>: the quotient is truncated towards zero.
\<close>

definition Math_round :: "real \<Rightarrow> int" where
  "Math_round x = \<lfloor>x + 1 / 2\<rfloor>"

definition Math_floor :: "real \<Rightarrow> int" where
  "Math_floor x = \<lfloor>x\<rfloor>"

definition js_rem :: "real \<Rightarrow> real \<Rightarrow> real" where
  "js_rem a b = a - b * real_of_int (if a / b \<ge> 0 then \<lfloor>a / b\<rfloor> else \<lceil>a / b\<rceil>)"

text \<open>
  The text a template literal gives for an integral number: its decimal digits, after a
  minus sign when it is negative. (JavaScript writes integers from \<open>10\<^sup>2\<^sup>1\<close> on in
  exponent notation; the model writes all the digits.)
\<close>

definition digit_char :: "nat \<Rightarrow> char" where
  "digit_char d = ''0123456789'' ! d"

fun digits :: "nat \<Rightarrow> string" where
  "digits n = (if n < 10 then [digit_char n] else digits (n div 10) @ [digit_char (n mod 10)])"

declare digits.simps [simp del]

definition numToString :: "int \<Rightarrow> string" where
  "numToString i = (if i < 0 then CHR ''-'' # digits (nat (- i)) else digits (nat i))"

definition formatDuration :: "real \<Rightarrow> string" where
  "formatDuration seconds =
    (if seconds < 60 then numToString (Math_round seconds) @ ''s''
     else if seconds < 3600 then
       (let minutes = Math_floor (seconds / 60);
            remainingSeconds = Math_round (js_rem seconds 60)
        in numToString minutes @ ''min '' @ numToString remainingSeconds @ ''s'')
     else
       (let hours = Math_floor (seconds / 3600);
            minutes = Math_floor (js_rem seconds 3600 / 60)
        in numToString hours @ ''h '' @ numToString minutes @ ''min''))"

section \<open>DataProcessor.calculateDistributionStats\<close>

record distributionStats =
  mean :: real
  median :: real
  min_value :: real
  max_value :: real
  stdDev :: real
  percentile95 :: real

text \<open>
  \<open>xs[i] || 0\<close>: a read outside the array gives \<open>undefined\<close>, which is falsy like 0.
\<close>

definition at_or_0 :: "real list \<Rightarrow> int \<Rightarrow> real" where
  "at_or_0 xs i = (if 0 \<le> i \<and> i < int (length xs) \<and> xs ! nat i \<noteq> 0 then xs ! nat i else 0)"

text \<open>
  The statistics from the input \<open>vals\<close> and its sorted copy \<open>sortedv\<close>, as the function
  computes them after the sort.
\<close>

definition statsOf :: "real list \<Rightarrow> real list \<Rightarrow> distributionStats" where
  "statsOf vals sortedv =
    (let mean = foldl (\<lambda>sum val. sum + val) 0 vals / real (length vals);
         median = (if length sortedv mod 2 = 0
                   then (at_or_0 sortedv (int (length sortedv) div 2 - 1)
                         + at_or_0 sortedv (int (length sortedv) div 2)) / 2
                   else at_or_0 sortedv (Math_floor (real (length sortedv) / 2)));
         variance = foldl (\<lambda>sum val. sum + (val - mean) ^ 2) 0 vals / real (length vals);
         stdDev = sqrt variance;
         percentile95Index = Math_floor (real (length sortedv) * 0.95);
         percentile95 = at_or_0 sortedv percentile95Index
     in \<lparr> mean = mean,
          median = median,
          min_value = at_or_0 sortedv 0,
          max_value = at_or_0 sortedv (int (length sortedv) - 1),
          stdDev = stdDev,
          percentile95 = percentile95 \<rparr>)"

definition calculateDistributionStats :: "real list \<Rightarrow> distributionStats" where
  "calculateDistributionStats vals =
    (if length vals = 0
     then \<lparr> mean = 0, median = 0, min_value = 0, max_value = 0, stdDev = 0, percentile95 = 0 \<rparr>
     else statsOf vals (sort vals))"

section \<open>The store: arrays as mutable objects\<close>

text \<open>
  The definitions above take the contents of the input arrays and return values. To
  state what a call does to the arrays themselves, the arrays are placed in a store: an
  array is an address (an index into the list of the arrays of its element type), and the
  store holds the contents of every array. The store has the arrays of the three element
  types of the inputs (\<open>number[]\<close>, \<open>RecipeRunStats[]\<close>, \<open>SourceFileResults[]\<close>; the
  records are immutable values inside the arrays' contents) and the arrays of map entries
  that \<open>calculateTimeSeries\<close> sorts. \<open>Map\<close> and \<open>Set\<close> objects, buckets and arrays of
  other element types are created inside the functions from strings and numbers and stay
  values, as in the definitions above.
\<close>

record store =
  numberArrays :: "real list list"
  statsArrays :: "RecipeRunStats list list"
  resultArrays :: "SourceFileResults list list"
  entryArrays :: "(real \<times> cycleData) list list"

text \<open>
  The array operations of the engine that create or change an array of the store. The
  spread \<open>[...a]\<close>, \<open>a.filter(P)\<close> and \<open>Array.from(m.entries())\<close> create a new array at
  the next free address; \<open>a.sort(cmp)\<close> sorts the array at \<open>a\<close> in place. The other
  methods the engine calls on its inputs (\<open>reduce\<close>, \<open>forEach\<close>, \<open>map\<close>, \<open>length\<close>) read.
\<close>

definition spread_numbers :: "store \<Rightarrow> nat \<Rightarrow> nat \<times> store" where
  "spread_numbers s a =
     (length (numberArrays s), s\<lparr> numberArrays := numberArrays s @ [numberArrays s ! a] \<rparr>)"

definition sort_numbers :: "store \<Rightarrow> nat \<Rightarrow> store" where
  "sort_numbers s a = s\<lparr> numberArrays := (numberArrays s)[a := sort (numberArrays s ! a)] \<rparr>"

definition filter_results :: "store \<Rightarrow> nat \<Rightarrow> (SourceFileResults \<Rightarrow> bool) \<Rightarrow> nat \<times> store" where
  "filter_results s a P =
     (length (resultArrays s), s\<lparr> resultArrays := resultArrays s @ [filter P (resultArrays s ! a)] \<rparr>)"

definition from_entries :: "store \<Rightarrow> (real \<times> cycleData) list \<Rightarrow> nat \<times> store" where
  "from_entries s m = (length (entryArrays s), s\<lparr> entryArrays := entryArrays s @ [m] \<rparr>)"

definition sort_entries :: "store \<Rightarrow> nat \<Rightarrow> store" where
  "sort_entries s a = s\<lparr> entryArrays := (entryArrays s)[a := sort_key fst (entryArrays s ! a)] \<rparr>"

text \<open>
  The five derivation functions on the store. Each takes the addresses of its input
  arrays and returns its value and the store after the call.

  \<open>calculateDistributionStats\<close>: \<open>[...values].sort((a, b) => a - b)\<close> creates the copy and
  sorts it in place; \<open>values\<close> and \<open>sorted\<close> are read afterwards.
\<close>

definition calculateDistributionStats_st :: "store \<Rightarrow> nat \<Rightarrow> distributionStats \<times> store" where
  "calculateDistributionStats_st s vals =
    (if length (numberArrays s ! vals) = 0
     then (\<lparr> mean = 0, median = 0, min_value = 0, max_value = 0, stdDev = 0, percentile95 = 0 \<rparr>, s)
     else (let (copy, s1) = spread_numbers s vals;
               s2 = sort_numbers s1 copy;
               sortedv = copy
           in (statsOf (numberArrays s2 ! vals) (numberArrays s2 ! sortedv), s2)))"

text \<open>\<open>calculateROIMetrics\<close>: \<open>sourceResults.filter(...)\<close> creates an array.\<close>

definition calculateROIMetrics_st :: "store \<Rightarrow> nat \<Rightarrow> nat \<Rightarrow> ROIMetrics \<times> store" where
  "calculateROIMetrics_st s recipeStats sourceResults =
    (let (filtered, s1) = filter_results s sourceResults
            (\<lambda>result. truthy (js_or (sourcePathAfter result) (sourcePathBefore result)))
     in (calculateROIMetrics (statsArrays s1 ! recipeStats) (resultArrays s1 ! sourceResults), s1))"

text \<open>
  \<open>enrichRecipeStats\<close>: the callback of \<open>recipeStats.map\<close> runs \<open>sourceResults.filter(...)\<close>
  once for each recipe record; the new objects are built by the spread \<open>{...stats, ...}\<close>.
\<close>

definition enrichRecipeStats_st ::
  "store \<Rightarrow> nat \<Rightarrow> nat \<Rightarrow> RecipePerformanceMetrics list \<times> store" where
  "enrichRecipeStats_st s recipeStats sourceResults =
    (let s1 = foldl (\<lambda>s' stats. snd (filter_results s' sourceResults
                       (\<lambda>result. recipeChanges result = recipe stats)))
                s (statsArrays s ! recipeStats)
     in (enrichRecipeStats (statsArrays s1 ! recipeStats) (resultArrays s1 ! sourceResults), s1))"

text \<open>\<open>aggregateByChangeType\<close>: reads its inputs with \<open>forEach\<close>; it creates no array of the store's kinds.\<close>

definition aggregateByChangeType_st ::
  "store \<Rightarrow> nat \<Rightarrow> nat \<Rightarrow> ChangeTypeAggregation list \<times> store" where
  "aggregateByChangeType_st s recipeStats sourceResults =
     (aggregateByChangeType (statsArrays s ! recipeStats) (resultArrays s ! sourceResults), s)"

text \<open>
  \<open>calculateTimeSeries\<close>: \<open>Array.from(cycleMap.entries())\<close> creates the array of entries
  and \<open>sort\<close> sorts it in place.
\<close>

definition calculateTimeSeries_st :: "store \<Rightarrow> nat \<Rightarrow> timeSeriesPoint list \<times> store" where
  "calculateTimeSeries_st s sourceResults =
    (let cycleMap = foldl addCycleResult [] (resultArrays s ! sourceResults);
         (entries, s1) = from_entries s cycleMap;
         s2 = sort_entries s1 entries
     in (timeSeriesOf (entryArrays s2 ! entries), s2))"

text \<open>
  \<open>unchanged s s'\<close>: every array of \<open>s\<close> is an array of \<open>s'\<close> at the same address with the
  same contents (\<open>s'\<close> may hold more arrays).
\<close>

definition unchanged :: "store \<Rightarrow> store \<Rightarrow> bool" where
  "unchanged s s' =
     (prefix (numberArrays s) (numberArrays s') \<and> prefix (statsArrays s) (statsArrays s')
      \<and> prefix (resultArrays s) (resultArrays s') \<and> prefix (entryArrays s) (entryArrays s'))"

section \<open>Auxiliary definitions\<close>

text \<open>
  Two abbreviations used in the proofs about \<open>aggregateByChangeType\<close>. \<open>bucketAfter b result\<close>
  is the bucket that the body of the first \<open>forEach\<close> leaves for the change type of
  \<open>result\<close> when \<open>get\<close> gave \<open>b\<close> before (lemma \<open>addSourceResult_get\<close> below), and
  \<open>execMs stats\<close> is the amount that the second \<open>forEach\<close> adds for \<open>stats\<close>.
\<close>

definition bucketAfter :: "agg option \<Rightarrow> SourceFileResults \<Rightarrow> agg" where
  "bucketAfter b result =
    (let a = (case b of None \<Rightarrow> \<lparr> agg.filesAffected = [], timeSaved = 0, executionTime = 0, recipes = [] \<rparr> | Some a \<Rightarrow> a);
         a1 = (case sourcePathAfter result of
                         None \<Rightarrow> a
                       | Some p \<Rightarrow> if p \<noteq> [] then a\<lparr> agg.filesAffected := set_add p (agg.filesAffected a) \<rparr>
                                   else a)
     in a1\<lparr> agg.timeSaved := agg.timeSaved a1 + estimatedTimeSaving result,
            agg.recipes := set_add (recipeChanges result) (agg.recipes a1) \<rparr>)"

definition execMs :: "RecipeRunStats \<Rightarrow> real" where
  "execMs stats = (cumulativeScanningTime stats + cumulativeEditTime stats) / 1000000"

section \<open>Example inputs\<close>

definition ex_stats :: RecipeRunStats where
  "ex_stats = \<lparr> recipe = ''org.openrewrite.java.migrate.Foo'', sourceFileCount = 10,
     sourceFileChangedCount = 2, cumulativeScanningTime = 1500000000,
     percentile99ScanningTime = 0, maxScanningTime = 0, cumulativeEditTime = 500000000,
     percentile99EditTime = 0, maxEditTime = 0 \<rparr>"

definition ex_scan_only :: RecipeRunStats where
  "ex_scan_only = \<lparr> recipe = ''com.acme.tools.Bar'', sourceFileCount = 4,
     sourceFileChangedCount = 0, cumulativeScanningTime = 7000000,
     percentile99ScanningTime = 0, maxScanningTime = 0, cumulativeEditTime = 0,
     percentile99EditTime = 0, maxEditTime = 0 \<rparr>"

definition ex_zero :: RecipeRunStats where
  "ex_zero = \<lparr> recipe = ''com.acme.Idle'', sourceFileCount = 0,
     sourceFileChangedCount = 0, cumulativeScanningTime = 0,
     percentile99ScanningTime = 0, maxScanningTime = 0, cumulativeEditTime = 0,
     percentile99EditTime = 0, maxEditTime = 0 \<rparr>"

definition ex_result :: SourceFileResults where
  "ex_result = \<lparr> sourcePathBefore = Some ''src/A.java'', sourcePathAfter = Some ''src/A.java'',
     recipeChanges = ''org.openrewrite.java.migrate.Foo'', estimatedTimeSaving = 3, cycle = 1 \<rparr>"

definition ex_empty_path :: SourceFileResults where
  "ex_empty_path = \<lparr> sourcePathBefore = None, sourcePathAfter = Some [],
     recipeChanges = ''com.acme.tools.Bar'', estimatedTimeSaving = 1, cycle = 1 \<rparr>"

definition ex_gain :: SourceFileResults where
  "ex_gain = \<lparr> sourcePathBefore = Some ''src/A.java'', sourcePathAfter = Some ''src/A.java'',
     recipeChanges = ''com.acme.tools.Bar'', estimatedTimeSaving = 5, cycle = 1 \<rparr>"

definition ex_loss :: SourceFileResults where
  "ex_loss = \<lparr> sourcePathBefore = Some ''src/B.java'', sourcePathAfter = Some ''src/B.java'',
     recipeChanges = ''com.acme.tools.Bar'', estimatedTimeSaving = - 3, cycle = 2 \<rparr>"

definition ex_gain_later :: SourceFileResults where
  "ex_gain_later = \<lparr> sourcePathBefore = Some ''src/B.java'', sourcePathAfter = Some ''src/B.java'',
     recipeChanges = ''com.acme.tools.Bar'', estimatedTimeSaving = 3, cycle = 2 \<rparr>"

definition ex_store :: store where
  "ex_store = \<lparr> numberArrays = [[3, 1, 2]], statsArrays = [[ex_stats, ex_scan_only]],
                 resultArrays = [[ex_gain_later, ex_gain]], entryArrays = [] \<rparr>"

section \<open>Helper lemmas\<close>

lemma foldl_plus_sum_list:
  "foldl (\<lambda>s x. s + f x) a xs = a + sum_list (map f xs)"
  for a :: real
  by (induction xs arbitrary: a) (simp_all add: algebra_simps)

lemma set_add_set: "set (set_add x s) = insert x (set s)"
  by (auto simp: set_add_def)

lemma set_add_distinct: "distinct s \<Longrightarrow> distinct (set_add x s)"
  by (simp add: set_add_def)

lemma foldl_set_add_set: "set (foldl (\<lambda>s x. set_add x s) acc xs) = set acc \<union> set xs"
  by (induction xs arbitrary: acc) (simp_all add: set_add_set)

lemma foldl_set_add_distinct:
  "distinct acc \<Longrightarrow> distinct (foldl (\<lambda>s x. set_add x s) acc xs)"
  by (induction xs arbitrary: acc) (simp_all add: set_add_distinct)

lemma new_Set_set: "set (new_Set xs) = set xs"
  by (simp add: new_Set_def foldl_set_add_set)

lemma new_Set_distinct: "distinct (new_Set xs)"
  by (simp add: new_Set_def foldl_set_add_distinct)

lemma new_Set_size: "length (new_Set xs) = card (set xs)"
  using distinct_card [OF new_Set_distinct, of xs] by (simp add: new_Set_set)

lemma unique_paths_set:
  "set (map (\<lambda>x. js_or (sourcePathAfter x) (sourcePathBefore x))
         (filter (\<lambda>x. truthy (js_or (sourcePathAfter x) (sourcePathBefore x))) srs))
   = {v. truthy v \<and> (\<exists>x\<in>set srs. js_or (sourcePathAfter x) (sourcePathBefore x) = v)}"
  by auto

lemma js_or_nullish:
  "a \<noteq> Some [] \<Longrightarrow> b \<noteq> Some [] \<Longrightarrow> js_or a b = nullish_or a b \<and> (truthy (js_or a b) \<longleftrightarrow> nullish_or a b \<noteq> None)"
  by (cases a; cases b) (auto simp: js_or_def nullish_or_def)

lemma str_includes_sublist: "str_includes s t = sublist t s"
  by (induction s) (auto simp: sublist_Cons_right)

lemma str_split_not_Nil: "str_split sep s \<noteq> []"
  by (induction s) (auto split: list.splits)

lemma str_split_length: "length (str_split sep s) = Suc (count_list s sep)"
  by (induction s) (auto split: list.splits simp: str_split_not_Nil)

lemma str_split_no_sep: "p \<in> set (str_split sep s) \<Longrightarrow> sep \<notin> set p"
  by (induction s arbitrary: p) (auto split: list.splits if_splits)

lemma at_or_0_nth: "0 \<le> i \<Longrightarrow> i < int (length xs) \<Longrightarrow> at_or_0 xs i = xs ! nat i"
  by (simp add: at_or_0_def)

lemma sorted_nth_0_Min: "sorted xs \<Longrightarrow> xs \<noteq> [] \<Longrightarrow> xs ! 0 = Min (set xs)"
  for xs :: "real list"
  by (cases xs) (auto intro!: Min_eqI [symmetric])

lemma sorted_last_Max: "sorted xs \<Longrightarrow> xs \<noteq> [] \<Longrightarrow> xs ! (length xs - 1) = Max (set xs)"
  for xs :: "real list"
proof -
  assume s: "sorted xs" and ne: "xs \<noteq> []"
  have "\<And>y. y \<in> set xs \<Longrightarrow> y \<le> xs ! (length xs - 1)"
  proof -
    fix y assume "y \<in> set xs"
    then obtain j where j: "j < length xs" "xs ! j = y" by (auto simp: in_set_conv_nth)
    then have "xs ! j \<le> xs ! (length xs - 1)"
      using s ne by (intro sorted_nth_mono) auto
    with j show "y \<le> xs ! (length xs - 1)" by simp
  qed
  moreover have "xs ! (length xs - 1) \<in> set xs" using ne by simp
  ultimately show ?thesis by (intro Max_eqI [symmetric]) auto
qed

lemma p95_index: "0 < n \<Longrightarrow> 0 \<le> \<lfloor>real n * 0.95\<rfloor> \<and> \<lfloor>real n * 0.95\<rfloor> < int n"
proof -
  assume n: "0 < n"
  have "real n * 0.95 < real n" using n by simp
  then have "\<lfloor>real n * 0.95\<rfloor> < int n" by (simp add: floor_less_iff)
  moreover have "0 \<le> \<lfloor>real n * 0.95\<rfloor>" by simp
  ultimately show ?thesis by simp
qed

lemma digits_numeral:
  "digits (numeral k) =
     (if (numeral k :: nat) < 10 then [digit_char (numeral k)]
      else digits (numeral k div 10) @ [digit_char (numeral k mod 10)])"
  by (rule digits.simps)

lemma digits_small: "digits 0 = ''0''" "digits (Suc 0) = ''1''"
  by (simp_all add: digits.simps digit_char_def)

lemma map_get_map_of: "map_get m k = map_of m k"
  by (induction m) auto

lemma map_set_keys_present: "map_get m k \<noteq> None \<Longrightarrow> map fst (map_set k v m) = map fst m"
  by (induction m) (auto split: if_splits)

lemma map_set_keys_absent: "map_get m k = None \<Longrightarrow> map fst (map_set k v m) = map fst m @ [k]"
  by (induction m) (auto split: if_splits)

lemma map_get_map_set: "map_get (map_set k v m) k' = (if k' = k then Some v else map_get m k')"
  by (induction m) auto

lemma map_get_None_iff: "map_get m k = None \<longleftrightarrow> k \<notin> fst ` set m"
  by (induction m) (auto split: if_splits)

lemma map_get_Some_mem: "map_get m k = Some v \<Longrightarrow> (k, v) \<in> set m"
  by (induction m) (auto split: if_splits)

lemma mem_map_get: "distinct (map fst m) \<Longrightarrow> (k, v) \<in> set m \<Longrightarrow> map_get m k = Some v"
  by (induction m) (auto simp: rev_image_eqI)

lemma map_set_distinct: "distinct (map fst m) \<Longrightarrow> distinct (map fst (map_set k v m))"
  by (cases "map_get m k = None")
     (auto simp: map_set_keys_absent map_set_keys_present map_get_None_iff)

lemma map_set_key_set: "fst ` set (map_set k v m) = insert k (fst ` set m)"
proof (cases "map_get m k = None")
  case True
  then have "map fst (map_set k v m) = map fst m @ [k]" by (rule map_set_keys_absent)
  then have "set (map fst (map_set k v m)) = set (map fst m @ [k])" by simp
  then show ?thesis by auto
next
  case False
  then have "map fst (map_set k v m) = map fst m" by (rule map_set_keys_present)
  then have "set (map fst (map_set k v m)) = set (map fst m)" by simp
  moreover have "k \<in> fst ` set m" using False by (simp add: map_get_None_iff)
  ultimately show ?thesis by auto
qed

lemma addSourceResult_eq:
  "addSourceResult m result =
     map_set (extractChangeType (recipeChanges result))
       (bucketAfter (map_get m (extractChangeType (recipeChanges result))) result)
       (if map_get m (extractChangeType (recipeChanges result)) = None
        then map_set (extractChangeType (recipeChanges result))
               \<lparr> agg.filesAffected = [], timeSaved = 0, executionTime = 0, recipes = [] \<rparr> m
        else m)"
  by (cases "map_get m (extractChangeType (recipeChanges result))")
     (auto simp: addSourceResult_def Let_def map_has_def map_get_map_set bucketAfter_def
           split: option.splits)

lemma addSourceResult_get:
  "map_get (addSourceResult m result) k =
     (if k = extractChangeType (recipeChanges result)
      then Some (bucketAfter (map_get m k) result) else map_get m k)"
  by (simp add: addSourceResult_eq map_get_map_set)

lemma addSourceResult_keys:
  "fst ` set (addSourceResult m result) = insert (extractChangeType (recipeChanges result)) (fst ` set m)"
  by (auto simp: addSourceResult_eq map_set_key_set)

lemma addSourceResult_distinct:
  "distinct (map fst m) \<Longrightarrow> distinct (map fst (addSourceResult m result))"
  by (simp add: addSourceResult_eq map_set_distinct)

lemma bucketAfter_recipes: "agg.recipes (bucketAfter b result) \<noteq> []"
  by (auto simp: bucketAfter_def Let_def set_add_def split: option.splits)

lemma bucketAfter_executionTime:
  "agg.executionTime (bucketAfter b result) = (case b of None \<Rightarrow> 0 | Some a \<Rightarrow> agg.executionTime a)"
  by (auto simp: bucketAfter_def Let_def split: option.splits)


lemma execMs_fun:
  "execMs = (\<lambda>s. (cumulativeScanningTime s + cumulativeEditTime s) / 1000000)"
  by (rule ext) (simp add: execMs_def)

lemma addRecipeStats_eq:
  "addRecipeStats m stats =
     (case map_get m (extractChangeType (recipe stats)) of
        None \<Rightarrow> m
      | Some a \<Rightarrow> map_set (extractChangeType (recipe stats))
                    (a\<lparr> agg.executionTime := agg.executionTime a + execMs stats \<rparr>) m)"
  by (simp add: addRecipeStats_def execMs_def Let_def split: option.splits)

lemma addRecipeStats_keys: "map fst (addRecipeStats m stats) = map fst m"
  by (auto simp: addRecipeStats_eq map_set_keys_present split: option.splits)

lemma addRecipeStats_unmatched:
  "extractChangeType (recipe stats) \<notin> fst ` set m \<Longrightarrow> addRecipeStats m stats = m"
  by (simp add: addRecipeStats_eq map_get_None_iff [symmetric])

lemma addRecipeStats_get:
  "map_get (addRecipeStats m stats) k =
     map_option (\<lambda>a. if k = extractChangeType (recipe stats)
                      then a\<lparr> agg.executionTime := agg.executionTime a + execMs stats \<rparr> else a)
       (map_get m k)"
  by (cases "map_get m k")
     (auto simp: addRecipeStats_eq map_get_map_set split: option.splits)

lemma pass1_keys:
  "fst ` set (foldl addSourceResult m srs)
     = fst ` set m \<union> (\<lambda>x. extractChangeType (recipeChanges x)) ` set srs"
  by (induction srs arbitrary: m) (auto simp: addSourceResult_keys)

lemma pass1_distinct:
  "distinct (map fst m) \<Longrightarrow> distinct (map fst (foldl addSourceResult m srs))"
  by (induction srs arbitrary: m) (simp_all add: addSourceResult_distinct)

lemma pass1_exec0:
  "(\<And>k a. map_get m k = Some a \<Longrightarrow> agg.executionTime a = 0) \<Longrightarrow>
   map_get (foldl addSourceResult m srs) k = Some a \<Longrightarrow> agg.executionTime a = 0"
proof (induction srs arbitrary: m)
  case Nil
  then show ?case by simp
next
  case (Cons x srs)
  have "\<And>k a. map_get (addSourceResult m x) k = Some a \<Longrightarrow> agg.executionTime a = 0"
    using Cons.prems(1)
    by (auto simp: addSourceResult_get bucketAfter_executionTime split: if_splits option.splits)
  then show ?case using Cons.IH [of "addSourceResult m x"] Cons.prems(2) by simp
qed

lemma pass1_recipes:
  "(\<And>k a. map_get m k = Some a \<Longrightarrow> agg.recipes a \<noteq> []) \<Longrightarrow>
   map_get (foldl addSourceResult m srs) k = Some a \<Longrightarrow> agg.recipes a \<noteq> []"
proof (induction srs arbitrary: m)
  case Nil
  then show ?case by simp
next
  case (Cons x srs)
  have "\<And>k a. map_get (addSourceResult m x) k = Some a \<Longrightarrow> agg.recipes a \<noteq> []"
    using Cons.prems(1)
    by (auto simp: addSourceResult_get bucketAfter_recipes split: if_splits)
  then show ?case using Cons.IH [of "addSourceResult m x"] Cons.prems(2) by simp
qed

lemma pass2_keys: "map fst (foldl addRecipeStats m rs) = map fst m"
  by (induction rs arbitrary: m) (simp_all add: addRecipeStats_keys)

lemma pass2_get:
  "map_get (foldl addRecipeStats m rs) k =
     map_option (\<lambda>a. a\<lparr> agg.executionTime := agg.executionTime a
        + sum_list (map execMs (filter (\<lambda>s. extractChangeType (recipe s) = k) rs)) \<rparr>)
       (map_get m k)"
proof (induction rs arbitrary: m)
  case Nil
  show ?case by (cases "map_get m k") simp_all
next
  case (Cons s rs)
  show ?case
    by (cases "map_get m k")
       (auto simp: Cons.IH addRecipeStats_get algebra_simps)
qed

lemma pass2_filter:
  "foldl addRecipeStats m rs
     = foldl addRecipeStats m (filter (\<lambda>s. extractChangeType (recipe s) \<in> fst ` set m) rs)"
proof (induction rs arbitrary: m)
  case Nil
  show ?case by simp
next
  case (Cons s rs)
  have keys: "fst ` set (addRecipeStats m s) = fst ` set m"
    using addRecipeStats_keys [of m s] by (metis list.set_map)
  show ?case
  proof (cases "extractChangeType (recipe s) \<in> fst ` set m")
    case True
    then show ?thesis using Cons.IH [of "addRecipeStats m s"] keys by simp
  next
    case False
    then show ?thesis using Cons.IH [of m] by (simp add: addRecipeStats_unmatched)
  qed
qed


lemma aggregate_bucket:
  assumes "b \<in> set (aggregateByChangeType rs srs)"
  obtains a where
    "map_get (foldl addRecipeStats (foldl addSourceResult [] srs) rs) (changeType b) = Some a"
    "ChangeTypeAggregation.executionTime b = agg.executionTime a"
    "ChangeTypeAggregation.recipes b = agg.recipes a"
proof -
  let ?m2 = "foldl addRecipeStats (foldl addSourceResult [] srs) rs"
  from assms obtain k a where ka: "(k, a) \<in> set ?m2"
    and b: "b = \<lparr> changeType = k, filesAffected = real (length (agg.filesAffected a)),
                   timeSaved = agg.timeSaved a, executionTime = agg.executionTime a,
                   recipes = agg.recipes a \<rparr>"
    by (auto simp: aggregateByChangeType_def Let_def)
  have "distinct (map fst ?m2)"
    by (simp add: pass2_keys pass1_distinct)
  then have "map_get ?m2 k = Some a" using ka by (rule mem_map_get)
  then show ?thesis using b that by simp
qed

lemma aggregate_keys:
  "changeType ` set (aggregateByChangeType rs srs)
     = (\<lambda>x. extractChangeType (recipeChanges x)) ` set srs"
proof -
  let ?m1 = "foldl addSourceResult [] srs"
  let ?m2 = "foldl addRecipeStats ?m1 rs"
  have "changeType ` set (aggregateByChangeType rs srs) = set (map fst ?m2)"
    by (force simp: aggregateByChangeType_def Let_def image_iff)
  also have "\<dots> = fst ` set ?m1" by (simp add: pass2_keys)
  also have "\<dots> = (\<lambda>x. extractChangeType (recipeChanges x)) ` set srs"
    by (simp add: pass1_keys)
  finally show ?thesis .
qed

lemma ex_types:
  "extractChangeType ''org.openrewrite.java.migrate.Foo'' = ''Migration''"
  "extractChangeType ''com.acme.tools.Bar'' = ''tools''"
  by (simp_all add: extractChangeType_def part_or_Other_def)

lemma distinct_map_insort_key:
  "distinct (map f (insort_key f x xs)) = (f x \<notin> f ` set xs \<and> distinct (map f xs))"
  by (induction xs) (auto simp: set_insort_key)

lemma distinct_map_sort_key: "distinct (map f (sort_key f xs)) = distinct (map f xs)"
  by (induction xs) (simp_all add: distinct_map_insort_key)

lemma addCycleResult_distinct:
  "distinct (map fst m) \<Longrightarrow> distinct (map fst (addCycleResult m x))"
  by (auto simp: addCycleResult_def Let_def map_has_def map_get_map_set map_set_distinct
           split: option.splits)

lemma addCycleResult_nonneg:
  assumes "\<And>k c. map_get m k = Some c \<Longrightarrow> 0 \<le> cycleData.timeSaved c"
    and "0 \<le> estimatedTimeSaving x"
    and "map_get (addCycleResult m x) k = Some c"
  shows "0 \<le> cycleData.timeSaved c"
  using assms
  by (auto simp: addCycleResult_def Let_def map_has_def map_get_map_set
           split: option.splits if_splits)

lemma cycleMap_distinct:
  "distinct (map fst m) \<Longrightarrow> distinct (map fst (foldl addCycleResult m srs))"
  by (induction srs arbitrary: m) (simp_all add: addCycleResult_distinct)

lemma cycleMap_nonneg:
  "(\<And>k c. map_get m k = Some c \<Longrightarrow> 0 \<le> cycleData.timeSaved c) \<Longrightarrow>
   (\<And>x. x \<in> set srs \<Longrightarrow> 0 \<le> estimatedTimeSaving x) \<Longrightarrow>
   map_get (foldl addCycleResult m srs) k = Some c \<Longrightarrow> 0 \<le> cycleData.timeSaved c"
proof (induction srs arbitrary: m)
  case Nil
  then show ?case by simp
next
  case (Cons x srs)
  have "\<And>k c. map_get (addCycleResult m x) k = Some c \<Longrightarrow> 0 \<le> cycleData.timeSaved c"
    using addCycleResult_nonneg [of m x] Cons.prems(1,2) by simp
  then show ?case
    using Cons.IH [of "addCycleResult m x"] Cons.prems(2,3) by simp
qed

lemma cumulate_cycles: "map timeSeriesPoint.cycle (cumulate r cs) = map cycleRow.cycle cs"
  by (induction cs arbitrary: r) (simp_all add: Let_def)

lemma cumulate_lower:
  "(\<And>c. c \<in> set cs \<Longrightarrow> 0 \<le> cycleRow.timeSaved c) \<Longrightarrow>
   p \<in> set (cumulate r cs) \<Longrightarrow> r \<le> cumulativeTimeSaved p"
proof (induction cs arbitrary: r)
  case Nil
  then show ?case by simp
next
  case (Cons c cs)
  have c0: "0 \<le> cycleRow.timeSaved c" using Cons.prems(1) by simp
  from Cons.prems(2) consider "cumulativeTimeSaved p = r + cycleRow.timeSaved c"
    | "p \<in> set (cumulate (r + cycleRow.timeSaved c) cs)"
    by (auto simp: Let_def)
  then show ?case
  proof cases
    case 1
    then show ?thesis using c0 by simp
  next
    case 2
    then have "r + cycleRow.timeSaved c \<le> cumulativeTimeSaved p"
      using Cons.IH [of "r + cycleRow.timeSaved c"] Cons.prems(1) by simp
    then show ?thesis using c0 by simp
  qed
qed

lemma cumulate_sorted:
  "(\<And>c. c \<in> set cs \<Longrightarrow> 0 \<le> cycleRow.timeSaved c) \<Longrightarrow>
   sorted (map cumulativeTimeSaved (cumulate r cs))"
proof (induction cs arbitrary: r)
  case Nil
  then show ?case by simp
next
  case (Cons c cs)
  have "\<And>p. p \<in> set (cumulate (r + cycleRow.timeSaved c) cs)
          \<Longrightarrow> r + cycleRow.timeSaved c \<le> cumulativeTimeSaved p"
    using cumulate_lower [of cs _ "r + cycleRow.timeSaved c"] Cons.prems by simp
  then show ?case using Cons.IH [of "r + cycleRow.timeSaved c"] Cons.prems
    by (auto simp: Let_def)
qed

lemma unchanged_refl: "unchanged s s"
  by (simp add: unchanged_def)

lemma unchanged_trans: "unchanged s s' \<Longrightarrow> unchanged s' s'' \<Longrightarrow> unchanged s s''"
  by (auto simp: unchanged_def)

lemma filter_results_unchanged: "unchanged s (snd (filter_results s a P))"
  by (simp add: filter_results_def unchanged_def)

lemma filter_results_fold_unchanged:
  "unchanged s (foldl (\<lambda>s' x. snd (filter_results s' a (P x))) s xs)"
proof (induction xs arbitrary: s)
  case Nil
  show ?case by (simp add: unchanged_refl)
next
  case (Cons x xs)
  show ?case
    using unchanged_trans [OF filter_results_unchanged [of s a "P x"]
        Cons.IH [of "snd (filter_results s a (P x))"]]
    by simp
qed

lemma prefix_read: "prefix xs ys \<Longrightarrow> i < length xs \<Longrightarrow> ys ! i = xs ! i"
  by (auto simp: prefix_def nth_append)

lemma unchanged_read:
  assumes "unchanged s s'"
  shows "a < length (numberArrays s) \<Longrightarrow> numberArrays s' ! a = numberArrays s ! a"
    and "a < length (statsArrays s) \<Longrightarrow> statsArrays s' ! a = statsArrays s ! a"
    and "a < length (resultArrays s) \<Longrightarrow> resultArrays s' ! a = resultArrays s ! a"
  using assms by (simp_all add: unchanged_def prefix_read)

lemma sorted_copy:
  assumes "a < length (numberArrays s)"
  shows "numberArrays (sort_numbers (snd (spread_numbers s a)) (fst (spread_numbers s a)))
           = numberArrays s @ [sort (numberArrays s ! a)]"
  using assms by (simp add: spread_numbers_def sort_numbers_def nth_append)

lemma sorted_copy_other:
  "entryArrays (sort_numbers (snd (spread_numbers s a)) (fst (spread_numbers s a))) = entryArrays s"
  "statsArrays (sort_numbers (snd (spread_numbers s a)) (fst (spread_numbers s a))) = statsArrays s"
  "resultArrays (sort_numbers (snd (spread_numbers s a)) (fst (spread_numbers s a))) = resultArrays s"
  by (simp_all add: spread_numbers_def sort_numbers_def)

lemma calculateDistributionStats_st_result:
  assumes "a < length (numberArrays s)"
  shows "fst (calculateDistributionStats_st s a) = calculateDistributionStats (numberArrays s ! a)"
  using assms sorted_copy [OF assms]
  by (simp add: calculateDistributionStats_st_def calculateDistributionStats_def
      case_prod_unfold Let_def nth_append spread_numbers_def)

lemma calculateDistributionStats_st_unchanged:
  assumes "a < length (numberArrays s)"
  shows "unchanged s (snd (calculateDistributionStats_st s a))"
  using sorted_copy [OF assms] sorted_copy_other [of s a]
  by (simp add: calculateDistributionStats_st_def case_prod_unfold Let_def unchanged_def)

lemma sort_in_place_is_seen:
  "\<not> unchanged ex_store (sort_numbers ex_store 0)"
  by (simp add: unchanged_def ex_store_def sort_numbers_def)

section \<open>Claims about calculateROIMetrics\<close>

text \<open>
  C1. For all inputs, \<open>totalExecutionTime\<close> is the sum over the recipe records of
  \<open>(cumulativeScanningTime + cumulativeEditTime) / 1e9\<close>, \<open>totalTimeSaved\<close> is the sum of
  \<open>estimatedTimeSaving\<close> over the file-change records, \<open>roi\<close> is
  \<open>(totalTimeSaved / totalExecutionTime) * 100\<close> when \<open>totalExecutionTime > 0\<close>, and \<open>roi\<close> is
  0 when \<open>totalExecutionTime = 0\<close>, whatever \<open>totalTimeSaved\<close> is. The function has no
  \<open>throw\<close> and its division is guarded, so it is a total function with no error value.
\<close>

theorem roi_guarded:
  "totalExecutionTime (calculateROIMetrics rs srs)
     = (\<Sum>r\<leftarrow>rs. (cumulativeScanningTime r + cumulativeEditTime r) / 1000000000)
   \<and> ROIMetrics.totalTimeSaved (calculateROIMetrics rs srs) = (\<Sum>x\<leftarrow>srs. estimatedTimeSaving x)
   \<and> (totalExecutionTime (calculateROIMetrics rs srs) > 0 \<longrightarrow>
        roi (calculateROIMetrics rs srs)
          = (ROIMetrics.totalTimeSaved (calculateROIMetrics rs srs)
              / totalExecutionTime (calculateROIMetrics rs srs)) * 100)
   \<and> (totalExecutionTime (calculateROIMetrics rs srs) = 0 \<longrightarrow>
        roi (calculateROIMetrics rs srs) = 0)"
  by (simp add: calculateROIMetrics_def Let_def foldl_plus_sum_list add_divide_distrib)

theorem roi_guarded_witness:
  "totalExecutionTime (calculateROIMetrics [ex_stats] [ex_result]) > 0
   \<and> roi (calculateROIMetrics [ex_stats] [ex_result]) = 150
   \<and> totalExecutionTime (calculateROIMetrics [] [ex_result]) = 0
   \<and> ROIMetrics.totalTimeSaved (calculateROIMetrics [] [ex_result]) = 3
   \<and> roi (calculateROIMetrics [] [ex_result]) = 0"
  using roi_guarded [of "[ex_stats]" "[ex_result]"] roi_guarded [of "[]" "[ex_result]"]
  by (simp add: ex_stats_def ex_result_def)

text \<open>
  C6 as the specification words it, with \<open>??\<close> and "non-null", fails on a record whose
  \<open>sourcePathAfter\<close> is the empty string and whose \<open>sourcePathBefore\<close> is \<open>null\<close>: the
  code tests truthiness with \<open>||\<close> and drops the record, the specification's count
  keeps the value \<open>""\<close>.
\<close>

theorem totalFilesChanged_nullish_counterexample:
  "totalFilesChanged (calculateROIMetrics [] [ex_empty_path]) = 0
   \<and> spec_totalFilesChanged [ex_empty_path] = 1"
  by (simp add: calculateROIMetrics_def Let_def new_Set_def js_or_def ex_empty_path_def
      spec_totalFilesChanged_def nullish_or_def)

text \<open>
  C6, amended. \<open>totalFilesChanged\<close> is the number of distinct truthy values of
  \<open>sourcePathAfter || sourcePathBefore\<close> (\<open>sourcePathAfter\<close> when it is neither \<open>null\<close> nor
  empty, otherwise \<open>sourcePathBefore\<close>); it never exceeds the number of file-change
  records; and when no path is the empty string, as in the loader's output, it is the
  count of the distinct non-null values of \<open>sourcePathAfter ?? sourcePathBefore\<close>.
\<close>

theorem totalFilesChanged_distinct_truthy:
  "totalFilesChanged (calculateROIMetrics rs srs)
     = real (card {v. truthy v \<and> (\<exists>x\<in>set srs. js_or (sourcePathAfter x) (sourcePathBefore x) = v)})
   \<and> totalFilesChanged (calculateROIMetrics rs srs) \<le> real (length srs)
   \<and> ((\<forall>x\<in>set srs. sourcePathAfter x \<noteq> Some [] \<and> sourcePathBefore x \<noteq> Some []) \<longrightarrow>
        totalFilesChanged (calculateROIMetrics rs srs) = real (spec_totalFilesChanged srs))"
proof -
  let ?f = "\<lambda>x. js_or (sourcePathAfter x) (sourcePathBefore x)"
  let ?xs = "map ?f (filter (\<lambda>x. truthy (?f x)) srs)"
  have tfc: "totalFilesChanged (calculateROIMetrics rs srs) = real (card (set ?xs))"
    by (simp add: calculateROIMetrics_def Let_def new_Set_size)
  have le: "card (set ?xs) \<le> length srs"
  proof -
    have "card (set ?xs) \<le> length ?xs" by (rule card_length)
    also have "\<dots> \<le> length srs" by simp
    finally show ?thesis .
  qed
  have spec: "card (set ?xs) = spec_totalFilesChanged srs"
    if ne: "\<forall>x\<in>set srs. sourcePathAfter x \<noteq> Some [] \<and> sourcePathBefore x \<noteq> Some []"
  proof -
    let ?g = "\<lambda>x. nullish_or (sourcePathAfter x) (sourcePathBefore x)"
    have pw: "?f x = ?g x \<and> (truthy (?f x) \<longleftrightarrow> ?g x \<noteq> None)" if "x \<in> set srs" for x
      using ne that js_or_nullish [of "sourcePathAfter x" "sourcePathBefore x"] by blast
    have sets: "{x \<in> set srs. truthy (?f x)} = {x \<in> set srs. ?g x \<noteq> None}"
      using pw by blast
    have "set ?xs = ?f ` {x \<in> set srs. truthy (?f x)}"
      by simp
    also have "\<dots> = ?g ` {x \<in> set srs. ?g x \<noteq> None}"
      unfolding sets using pw by (intro image_cong refl) simp
    also have "\<dots> = set (filter (\<lambda>v. v \<noteq> None) (map ?g srs))"
      by auto
    finally have "set ?xs = set (filter (\<lambda>v. v \<noteq> None) (map ?g srs))" .
    then show ?thesis
      by (simp only: spec_totalFilesChanged_def length_remdups_card_conv)
  qed
  show ?thesis
    using tfc le spec unique_paths_set [of srs] by simp
qed

theorem totalFilesChanged_distinct_truthy_witness:
  "totalFilesChanged (calculateROIMetrics [] [ex_result, ex_result]) = 1
   \<and> totalFilesChanged (calculateROIMetrics [] [ex_result, ex_result]) = real (spec_totalFilesChanged [ex_result, ex_result])"
  using totalFilesChanged_distinct_truthy [of "[]" "[ex_result, ex_result]"]
  by (simp add: ex_result_def spec_totalFilesChanged_def nullish_or_def)

section \<open>Claims about enrichRecipeStats\<close>

text \<open>
  C2. The result has one entry per recipe record, in order, and for the record \<open>r\<close> at
  index \<open>i\<close> the entry's \<open>scanEditRatio\<close> is \<open>r.cumulativeScanningTime / r.cumulativeEditTime\<close>
  when the edit time is positive, positive infinity when the edit time is 0 and the
  scan time is positive, and 0 when both are 0; in the last case \<open>totalExecutionTimeMs\<close>
  is 0 as well. So for a set of recipe records whose timings are all zero every entry has
  \<open>scanEditRatio\<close> 0 and \<open>totalExecutionTimeMs\<close> 0.
\<close>

theorem scanEditRatio_cases:
  assumes "i < length rs"
  shows "length (enrichRecipeStats rs srs) = length rs
    \<and> (cumulativeEditTime (rs ! i) > 0 \<longrightarrow>
         scanEditRatio (enrichRecipeStats rs srs ! i)
           = Num (cumulativeScanningTime (rs ! i) / cumulativeEditTime (rs ! i)))
    \<and> (cumulativeEditTime (rs ! i) = 0 \<and> cumulativeScanningTime (rs ! i) > 0 \<longrightarrow>
         scanEditRatio (enrichRecipeStats rs srs ! i) = Infinity)
    \<and> (cumulativeEditTime (rs ! i) = 0 \<and> cumulativeScanningTime (rs ! i) = 0 \<longrightarrow>
         scanEditRatio (enrichRecipeStats rs srs ! i) = Num 0
         \<and> totalExecutionTimeMs (enrichRecipeStats rs srs ! i) = 0)
    \<and> ((\<forall>r\<in>set rs. cumulativeScanningTime r = 0 \<and> cumulativeEditTime r = 0) \<longrightarrow>
         (\<forall>m\<in>set (enrichRecipeStats rs srs).
            scanEditRatio m = Num 0 \<and> totalExecutionTimeMs m = 0))"
proof -
  have each: "length (enrichRecipeStats rs srs) = length rs
    \<and> (cumulativeEditTime (rs ! i) > 0 \<longrightarrow>
         scanEditRatio (enrichRecipeStats rs srs ! i)
           = Num (cumulativeScanningTime (rs ! i) / cumulativeEditTime (rs ! i)))
    \<and> (cumulativeEditTime (rs ! i) = 0 \<and> cumulativeScanningTime (rs ! i) > 0 \<longrightarrow>
         scanEditRatio (enrichRecipeStats rs srs ! i) = Infinity)
    \<and> (cumulativeEditTime (rs ! i) = 0 \<and> cumulativeScanningTime (rs ! i) = 0 \<longrightarrow>
         scanEditRatio (enrichRecipeStats rs srs ! i) = Num 0
         \<and> totalExecutionTimeMs (enrichRecipeStats rs srs ! i) = 0)"
    using assms by (simp add: enrichRecipeStats_def Let_def)
  have all: "(\<forall>r\<in>set rs. cumulativeScanningTime r = 0 \<and> cumulativeEditTime r = 0) \<longrightarrow>
         (\<forall>m\<in>set (enrichRecipeStats rs srs).
            scanEditRatio m = Num 0 \<and> totalExecutionTimeMs m = 0)"
    by (auto simp: enrichRecipeStats_def Let_def)
  show ?thesis using each all by blast
qed

theorem scanEditRatio_cases_witness:
  "scanEditRatio (enrichRecipeStats [ex_stats, ex_scan_only, ex_zero] [ex_result] ! 0) = Num 3
   \<and> scanEditRatio (enrichRecipeStats [ex_stats, ex_scan_only, ex_zero] [ex_result] ! 1) = Infinity
   \<and> scanEditRatio (enrichRecipeStats [ex_stats, ex_scan_only, ex_zero] [ex_result] ! 2) = Num 0
   \<and> totalExecutionTimeMs (enrichRecipeStats [ex_stats, ex_scan_only, ex_zero] [ex_result] ! 2) = 0
   \<and> map scanEditRatio (enrichRecipeStats [ex_zero, ex_zero] [ex_result]) = [Num 0, Num 0]
   \<and> map totalExecutionTimeMs (enrichRecipeStats [ex_zero, ex_zero] [ex_result]) = [0, 0]"
  using scanEditRatio_cases [of 0 "[ex_stats, ex_scan_only, ex_zero]" "[ex_result]"]
        scanEditRatio_cases [of 1 "[ex_stats, ex_scan_only, ex_zero]" "[ex_result]"]
        scanEditRatio_cases [of 2 "[ex_stats, ex_scan_only, ex_zero]" "[ex_result]"]
        scanEditRatio_cases [of 0 "[ex_zero, ex_zero]" "[ex_result]"]
  by (simp add: ex_stats_def ex_scan_only_def ex_zero_def enrichRecipeStats_def Let_def)
section \<open>Claims about extractChangeType\<close>

text \<open>
  C4 as stated fails on a name whose second-to-last segment is empty: \<open>"a..b"\<close> matches
  no substring test and has 3 segments, the second-to-last is the empty string, and the
  code's \<open>|| 'Other'\<close> turns it into \<open>Other\<close>.
\<close>

theorem extractChangeType_empty_segment_counterexample:
  "extractChangeType ''a..b'' = ''Other'' \<and> spec_classify ''a..b'' = []"
  by (simp add: extractChangeType_def part_or_Other_def spec_classify_def sublist_code)

text \<open>
  C4, amended. The classification is the one of the specification (empty name:
  \<open>Unknown\<close>; the seven substring tests in order, first match wins; otherwise the
  second-to-last dot-separated segment of a name with more than 2 segments; otherwise
  \<open>Other\<close>), except that an empty second-to-last segment gives \<open>Other\<close>. The two names
  of the specification classify as \<open>Migration\<close> and \<open>tools\<close>.
\<close>

theorem extractChangeType_rules:
  "extractChangeType n =
     (if spec_classify n = [] then ''Other'' else spec_classify n)
   \<and> extractChangeType [] = ''Unknown''
   \<and> extractChangeType ''org.openrewrite.java.migrate.Foo'' = ''Migration''
   \<and> extractChangeType ''com.acme.tools.Bar'' = ''tools''"
proof -
  have "extractChangeType n = (if spec_classify n = [] then ''Other'' else spec_classify n)"
    by (simp add: extractChangeType_def spec_classify_def str_includes_sublist Let_def
        part_or_Other_def nat_diff_distrib')
  moreover have "extractChangeType [] = ''Unknown''"
    by (simp add: extractChangeType_def)
  moreover have "extractChangeType ''org.openrewrite.java.migrate.Foo'' = ''Migration''"
    by (simp add: extractChangeType_def)
  moreover have "extractChangeType ''com.acme.tools.Bar'' = ''tools''"
    by (simp add: extractChangeType_def part_or_Other_def)
  ultimately show ?thesis by blast
qed


theorem extractChangeType_rules_witness:
  "spec_classify ''a..b'' = [] \<and> extractChangeType ''a..b'' = ''Other''
   \<and> spec_classify ''a.junit.b'' = ''Testing'' \<and> extractChangeType ''a.junit.b'' = ''Testing''"
  using extractChangeType_rules [of "''a..b''"] extractChangeType_rules [of "''a.junit.b''"]
  by (simp add: spec_classify_def sublist_code)

section \<open>Claims about formatDuration\<close>

text \<open>
  C8. \<open>formatDuration s\<close> is \<open>"{round(s)}s"\<close> when \<open>s < 60\<close>,
  \<open>"{floor(s/60)}min {round(s%60)}s"\<close> when \<open>60 \<le> s < 3600\<close> and
  \<open>"{floor(s/3600)}h {floor((s%3600)/60)}min"\<close> when \<open>s \<ge> 3600\<close>, where on these branches
  \<open>s % m\<close> is \<open>s - m * floor(s/m)\<close>; and \<open>formatDuration(45) = "45s"\<close>,
  \<open>formatDuration(125) = "2min 5s"\<close>, \<open>formatDuration(3725) = "1h 2min"\<close>.
\<close>

theorem formatDuration_tiers:
  "(s < 60 \<longrightarrow> formatDuration s = numToString (round s) @ ''s'')
   \<and> (60 \<le> s \<and> s < 3600 \<longrightarrow>
        formatDuration s = numToString \<lfloor>s / 60\<rfloor> @ ''min ''
          @ numToString (round (s - 60 * real_of_int \<lfloor>s / 60\<rfloor>)) @ ''s'')
   \<and> (3600 \<le> s \<longrightarrow>
        formatDuration s = numToString \<lfloor>s / 3600\<rfloor> @ ''h ''
          @ numToString \<lfloor>(s - 3600 * real_of_int \<lfloor>s / 3600\<rfloor>) / 60\<rfloor> @ ''min'')
   \<and> formatDuration 45 = ''45s''
   \<and> formatDuration 125 = ''2min 5s''
   \<and> formatDuration 3725 = ''1h 2min''"
proof -
  have a: "s < 60 \<Longrightarrow> formatDuration s = numToString (round s) @ ''s''"
    by (simp add: formatDuration_def Math_round_def round_def)
  have b: "60 \<le> s \<Longrightarrow> s < 3600 \<Longrightarrow> formatDuration s = numToString \<lfloor>s / 60\<rfloor> @ ''min ''
          @ numToString (round (s - 60 * real_of_int \<lfloor>s / 60\<rfloor>)) @ ''s''"
    by (simp add: formatDuration_def Math_round_def Math_floor_def round_def js_rem_def Let_def)
  have c: "3600 \<le> s \<Longrightarrow> formatDuration s = numToString \<lfloor>s / 3600\<rfloor> @ ''h ''
          @ numToString \<lfloor>(s - 3600 * real_of_int \<lfloor>s / 3600\<rfloor>) / 60\<rfloor> @ ''min''"
    by (simp add: formatDuration_def Math_round_def Math_floor_def round_def js_rem_def Let_def)
  have d: "formatDuration 45 = ''45s''"
    by (simp add: formatDuration_def Math_round_def numToString_def digits.simps digit_char_def)
  have e: "formatDuration 125 = ''2min 5s''"
    by (simp add: formatDuration_def Math_round_def Math_floor_def js_rem_def numToString_def digits.simps digit_char_def)
  have f: "formatDuration 3725 = ''1h 2min''"
    by (simp add: formatDuration_def Math_round_def Math_floor_def js_rem_def numToString_def digits.simps digit_char_def)
  show ?thesis using a b c d e f by blast
qed


theorem formatDuration_tiers_witness:
  "formatDuration 59.6 = ''60s''
   \<and> formatDuration 119.7 = ''1min 60s''
   \<and> formatDuration 7384 = ''2h 3min''"
  using formatDuration_tiers [of "59.6"] formatDuration_tiers [of "119.7"]
        formatDuration_tiers [of 7384]
  by (simp add: numToString_def digits_numeral digits_small digit_char_def round_def)
section \<open>Claims about calculateDistributionStats\<close>

text \<open>
  C5. The empty sequence gives all zeros and \<open>[5]\<close> gives 5 for the mean, the median,
  the minimum, the maximum and the 95th percentile and 0 for the standard deviation.
  For a non-empty sequence of \<open>N\<close> values the result holds the arithmetic mean, the
  median (the average of the two middle sorted elements for even \<open>N\<close>, the middle sorted
  element for odd \<open>N\<close>), the minimum, the maximum, the population standard deviation
  (dividing by \<open>N\<close>) and the sorted value at index \<open>floor(0.95 * N)\<close>, which is inside the
  array.
\<close>

theorem distributionStats_values:
  "calculateDistributionStats []
     = \<lparr> mean = 0, median = 0, min_value = 0, max_value = 0, stdDev = 0, percentile95 = 0 \<rparr>
   \<and> calculateDistributionStats [5]
     = \<lparr> mean = 5, median = 5, min_value = 5, max_value = 5, stdDev = 0, percentile95 = 5 \<rparr>
   \<and> (vals \<noteq> [] \<longrightarrow>
        mean (calculateDistributionStats vals) = sum_list vals / real (length vals)
      \<and> median (calculateDistributionStats vals)
          = (if even (length vals)
             then (sort vals ! (length vals div 2 - 1) + sort vals ! (length vals div 2)) / 2
             else sort vals ! (length vals div 2))
      \<and> min_value (calculateDistributionStats vals) = Min (set vals)
      \<and> max_value (calculateDistributionStats vals) = Max (set vals)
      \<and> stdDev (calculateDistributionStats vals)
          = sqrt ((\<Sum>v\<leftarrow>vals. (v - sum_list vals / real (length vals)) ^ 2) / real (length vals))
      \<and> nat \<lfloor>0.95 * real (length vals)\<rfloor> < length vals
      \<and> percentile95 (calculateDistributionStats vals)
          = sort vals ! nat \<lfloor>0.95 * real (length vals)\<rfloor>)"
proof -
  have empty: "calculateDistributionStats []
     = \<lparr> mean = 0, median = 0, min_value = 0, max_value = 0, stdDev = 0, percentile95 = 0 \<rparr>"
    by (simp add: calculateDistributionStats_def)
  have five: "calculateDistributionStats [5]
     = \<lparr> mean = 5, median = 5, min_value = 5, max_value = 5, stdDev = 0, percentile95 = 5 \<rparr>"
    by (simp add: calculateDistributionStats_def statsOf_def at_or_0_def Math_floor_def Let_def)
  have general: "mean (calculateDistributionStats vals) = sum_list vals / real (length vals)
      \<and> median (calculateDistributionStats vals)
          = (if even (length vals)
             then (sort vals ! (length vals div 2 - 1) + sort vals ! (length vals div 2)) / 2
             else sort vals ! (length vals div 2))
      \<and> min_value (calculateDistributionStats vals) = Min (set vals)
      \<and> max_value (calculateDistributionStats vals) = Max (set vals)
      \<and> stdDev (calculateDistributionStats vals)
          = sqrt ((\<Sum>v\<leftarrow>vals. (v - sum_list vals / real (length vals)) ^ 2) / real (length vals))
      \<and> nat \<lfloor>0.95 * real (length vals)\<rfloor> < length vals
      \<and> percentile95 (calculateDistributionStats vals)
          = sort vals ! nat \<lfloor>0.95 * real (length vals)\<rfloor>" if ne: "vals \<noteq> []"
  proof -
    let ?n = "length vals"
    let ?d = "calculateDistributionStats vals"
    have n: "0 < ?n" using ne by simp
    have sne: "sort vals \<noteq> []"
    proof
      assume "sort vals = []"
      then have "length (sort vals) = 0" by simp
      then show False using ne by simp
    qed
    have d: "?d = statsOf vals (sort vals)"
      using ne by (simp add: calculateDistributionStats_def)
    have m: "mean ?d = sum_list vals / real ?n"
      by (simp add: d statsOf_def Let_def foldl_plus_sum_list)
    have sd: "stdDev ?d = sqrt ((\<Sum>v\<leftarrow>vals. (v - sum_list vals / real ?n) ^ 2) / real ?n)"
      by (simp add: d statsOf_def Let_def foldl_plus_sum_list)
    have mn: "min_value ?d = Min (set vals)"
      using n sorted_nth_0_Min [of "sort vals"] sne
      by (simp add: d statsOf_def Let_def at_or_0_nth)
    have mx: "max_value ?d = Max (set vals)"
      using n sorted_last_Max [of "sort vals"] sne
      by (simp add: d statsOf_def Let_def at_or_0_nth nat_diff_distrib')
    have pi: "0 \<le> \<lfloor>real ?n * 0.95\<rfloor> \<and> \<lfloor>real ?n * 0.95\<rfloor> < int ?n"
      using p95_index [OF n] .
    have p: "percentile95 ?d = sort vals ! nat \<lfloor>0.95 * real ?n\<rfloor>"
      using pi by (simp add: d statsOf_def Let_def Math_floor_def at_or_0_nth mult.commute)
    have pl: "nat \<lfloor>0.95 * real ?n\<rfloor> < ?n"
      using pi by (simp add: mult.commute nat_less_iff)
    have med_even: "median ?d = (sort vals ! (?n div 2 - 1) + sort vals ! (?n div 2)) / 2"
      if ev: "even ?n"
    proof -
      have two: "2 \<le> ?n"
      proof -
        have "?n \<noteq> 1" using ev by auto
        with n show ?thesis by linarith
      qed
      have i1: "0 \<le> int ?n div 2 - 1 \<and> int ?n div 2 - 1 < int ?n" using two by linarith
      have i2: "0 \<le> int ?n div 2 \<and> int ?n div 2 < int ?n" using two by linarith
      have n1: "nat (int ?n div 2 - 1) = ?n div 2 - 1"
        by (simp add: nat_diff_distrib' nat_div_distrib zdiv_int)
      have n2: "nat (int ?n div 2) = ?n div 2"
        by (simp add: nat_div_distrib)
      have "median ?d = (at_or_0 (sort vals) (int ?n div 2 - 1) + at_or_0 (sort vals) (int ?n div 2)) / 2"
        using ev by (simp add: d statsOf_def Let_def even_iff_mod_2_eq_zero)
      then show ?thesis
        using i1 i2 n1 n2 by (simp add: at_or_0_nth)
    qed
    have med_odd: "median ?d = sort vals ! (?n div 2)" if od: "odd ?n"
    proof -
      have fl: "\<lfloor>real ?n / 2\<rfloor> = int (?n div 2)"
        using floor_divide_of_nat_eq [of ?n 2] by simp
      have "median ?d = at_or_0 (sort vals) (int (?n div 2))"
        using od by (simp add: d statsOf_def Let_def Math_floor_def fl odd_iff_mod_2_eq_one)
      moreover have "int (?n div 2) < int ?n" using n by simp
      ultimately show ?thesis by (simp add: at_or_0_nth)
    qed
    show ?thesis using m sd mn mx p pl med_even med_odd by simp
  qed
  show ?thesis using empty five general by blast
qed

theorem distributionStats_values_witness:
  "mean (calculateDistributionStats [4, 2]) = 3
   \<and> median (calculateDistributionStats [4, 2]) = 3
   \<and> min_value (calculateDistributionStats [4, 2]) = 2
   \<and> max_value (calculateDistributionStats [4, 2]) = 4
   \<and> stdDev (calculateDistributionStats [4, 2]) = 1
   \<and> percentile95 (calculateDistributionStats [4, 2]) = 4"
  using distributionStats_values [of "[4, 2]"]
  by (simp add: numeral_2_eq_2)

section \<open>Claims about aggregateByChangeType\<close>

text \<open>
  C3. The change types of the returned buckets are exactly the change types of the
  file-change records: the recipe pass creates no bucket. The \<open>executionTime\<close> of a
  bucket is the sum of \<open>(cumulativeScanningTime + cumulativeEditTime) / 1e6\<close> over the
  recipe records of its change type. A recipe record whose change type is the change
  type of no file-change record contributes nothing: the result is the same with these
  records removed from the input.
\<close>

theorem executionTime_only_existing_buckets:
  "changeType ` set (aggregateByChangeType rs srs)
     = (\<lambda>x. extractChangeType (recipeChanges x)) ` set srs
   \<and> (\<forall>b\<in>set (aggregateByChangeType rs srs).
        ChangeTypeAggregation.executionTime b
          = (\<Sum>s\<leftarrow>filter (\<lambda>s. extractChangeType (recipe s) = changeType b) rs.
               (cumulativeScanningTime s + cumulativeEditTime s) / 1000000))
   \<and> aggregateByChangeType rs srs
       = aggregateByChangeType
           (filter (\<lambda>s. extractChangeType (recipe s)
                          \<in> (\<lambda>x. extractChangeType (recipeChanges x)) ` set srs) rs) srs"
proof (intro conjI ballI)
  show "changeType ` set (aggregateByChangeType rs srs)
     = (\<lambda>x. extractChangeType (recipeChanges x)) ` set srs"
    by (rule aggregate_keys)
next
  fix b assume "b \<in> set (aggregateByChangeType rs srs)"
  then obtain a where
    a: "map_get (foldl addRecipeStats (foldl addSourceResult [] srs) rs) (changeType b) = Some a"
    and e: "ChangeTypeAggregation.executionTime b = agg.executionTime a"
    by (rule aggregate_bucket)
  from a obtain a1 where
    a1: "map_get (foldl addSourceResult [] srs) (changeType b) = Some a1"
    and aa: "a = a1\<lparr> agg.executionTime := agg.executionTime a1
        + sum_list (map execMs (filter (\<lambda>s. extractChangeType (recipe s) = changeType b) rs)) \<rparr>"
    by (auto simp: pass2_get)
  have "agg.executionTime a1 = 0"
    using pass1_exec0 [of "[]" srs "changeType b" a1] a1 by simp
  then show "ChangeTypeAggregation.executionTime b
          = (\<Sum>s\<leftarrow>filter (\<lambda>s. extractChangeType (recipe s) = changeType b) rs.
               (cumulativeScanningTime s + cumulativeEditTime s) / 1000000)"
    using e aa by (simp add: execMs_fun)
next
  show "aggregateByChangeType rs srs
       = aggregateByChangeType
           (filter (\<lambda>s. extractChangeType (recipe s)
                          \<in> (\<lambda>x. extractChangeType (recipeChanges x)) ` set srs) rs) srs"
    using pass2_filter [of "foldl addSourceResult [] srs" rs]
    by (simp add: aggregateByChangeType_def Let_def pass1_keys)
qed

theorem executionTime_only_existing_buckets_witness:
  "map changeType (aggregateByChangeType [ex_stats, ex_scan_only] [ex_result]) = [''Migration'']
   \<and> map ChangeTypeAggregation.executionTime
         (aggregateByChangeType [ex_stats, ex_scan_only] [ex_result]) = [2000]
   \<and> aggregateByChangeType [ex_stats, ex_scan_only] [ex_result]
       = aggregateByChangeType [ex_stats] [ex_result]"
  using executionTime_only_existing_buckets [of "[ex_stats, ex_scan_only]" "[ex_result]"]
  by (simp add: aggregateByChangeType_def addSourceResult_def addRecipeStats_def map_has_def
      Let_def set_add_def ex_stats_def ex_scan_only_def ex_result_def ex_types)

text \<open>
  C10. Every bucket returned by \<open>aggregateByChangeType\<close> has a non-empty \<open>recipes\<close> list.
\<close>

theorem buckets_have_recipes:
  "\<forall>b\<in>set (aggregateByChangeType rs srs). ChangeTypeAggregation.recipes b \<noteq> []"
proof
  fix b assume "b \<in> set (aggregateByChangeType rs srs)"
  then obtain a where
    a: "map_get (foldl addRecipeStats (foldl addSourceResult [] srs) rs) (changeType b) = Some a"
    and r: "ChangeTypeAggregation.recipes b = agg.recipes a"
    by (rule aggregate_bucket)
  from a obtain a1 where
    a1: "map_get (foldl addSourceResult [] srs) (changeType b) = Some a1"
    and aa: "agg.recipes a = agg.recipes a1"
    by (auto simp: pass2_get)
  have "agg.recipes a1 \<noteq> []"
    using pass1_recipes [of "[]" srs "changeType b" a1] a1 by simp
  then show "ChangeTypeAggregation.recipes b \<noteq> []" using r aa by simp
qed

theorem buckets_have_recipes_witness:
  "length (aggregateByChangeType [ex_stats] [ex_result, ex_empty_path]) = 2
   \<and> map ChangeTypeAggregation.recipes (aggregateByChangeType [ex_stats] [ex_result, ex_empty_path])
       = [[''org.openrewrite.java.migrate.Foo''], [''com.acme.tools.Bar'']]"
  using buckets_have_recipes [of "[ex_stats]" "[ex_result, ex_empty_path]"]
  by (simp add: aggregateByChangeType_def addSourceResult_def addRecipeStats_def map_has_def
      Let_def set_add_def ex_stats_def ex_empty_path_def ex_result_def ex_types)

section \<open>Claims about calculateTimeSeries\<close>

text \<open>
  C7 as stated fails when an \<open>estimatedTimeSaving\<close> is negative: with a saving of 5 in
  cycle 1 and of -3 in cycle 2 the cumulative values are 5 and then 2.
\<close>

theorem timeSeries_negative_saving_counterexample:
  "map cumulativeTimeSaved (calculateTimeSeries [ex_gain, ex_loss]) = [5, 2]
   \<and> cumulativeTimeSaved (calculateTimeSeries [ex_gain, ex_loss] ! 1)
       < cumulativeTimeSaved (calculateTimeSeries [ex_gain, ex_loss] ! 0)"
  by (simp add: calculateTimeSeries_def timeSeriesOf_def addCycleResult_def map_has_def Let_def set_add_def
      ex_gain_def ex_loss_def)

text \<open>
  C7, amended. The result is in strictly ascending order of cycle number, and when every
  \<open>estimatedTimeSaving\<close> is non-negative its \<open>cumulativeTimeSaved\<close> values are
  non-decreasing.
\<close>

theorem timeSeries_order:
  "sorted_wrt (<) (map timeSeriesPoint.cycle (calculateTimeSeries srs))
   \<and> ((\<forall>x\<in>set srs. 0 \<le> estimatedTimeSaving x) \<longrightarrow>
        sorted (map cumulativeTimeSaved (calculateTimeSeries srs)))"
proof
  let ?m = "foldl addCycleResult [] srs"
  have keys: "map timeSeriesPoint.cycle (calculateTimeSeries srs) = map fst (sort_key fst ?m)"
    by (simp add: calculateTimeSeries_def timeSeriesOf_def Let_def cumulate_cycles comp_def
        case_prod_unfold)
  have d: "distinct (map fst ?m)" by (simp add: cycleMap_distinct)
  have "distinct (map fst (sort_key fst ?m))"
    using d by (simp add: distinct_map_sort_key)
  moreover have "sorted (map fst (sort_key fst ?m))" by (rule sorted_sort_key)
  ultimately show "sorted_wrt (<) (map timeSeriesPoint.cycle (calculateTimeSeries srs))"
    by (simp add: keys strict_sorted_iff)
next
  show "(\<forall>x\<in>set srs. 0 \<le> estimatedTimeSaving x) \<longrightarrow>
        sorted (map cumulativeTimeSaved (calculateTimeSeries srs))"
  proof
    assume nn: "\<forall>x\<in>set srs. 0 \<le> estimatedTimeSaving x"
    let ?m = "foldl addCycleResult [] srs"
    have d: "distinct (map fst ?m)" by (simp add: cycleMap_distinct)
    have "0 \<le> cycleData.timeSaved c" if "(k, c) \<in> set (sort_key fst ?m)" for k c
    proof -
      from that have "(k, c) \<in> set ?m" by simp
      then have "map_get ?m k = Some c" using d by (simp add: mem_map_get)
      then show ?thesis using cycleMap_nonneg [of "[]" srs k c] nn by simp
    qed
    then show "sorted (map cumulativeTimeSaved (calculateTimeSeries srs))"
      unfolding calculateTimeSeries_def timeSeriesOf_def Let_def
      by (intro cumulate_sorted) auto
  qed
qed

theorem timeSeries_order_witness:
  "map timeSeriesPoint.cycle (calculateTimeSeries [ex_gain_later, ex_gain]) = [1, 2]
   \<and> map cumulativeTimeSaved (calculateTimeSeries [ex_gain_later, ex_gain]) = [5, 8]"
  using timeSeries_order [of "[ex_gain_later, ex_gain]"]
  by (simp add: calculateTimeSeries_def timeSeriesOf_def addCycleResult_def map_has_def Let_def set_add_def
      ex_gain_def ex_gain_later_def)

section \<open>The derivation functions leave their inputs unchanged\<close>

text \<open>
  C9. For every store and all addresses of input arrays in it, after a call of
  \<open>calculateROIMetrics\<close>, \<open>enrichRecipeStats\<close>, \<open>aggregateByChangeType\<close>,
  \<open>calculateTimeSeries\<close> or \<open>calculateDistributionStats\<close> every array that was in the store,
  and so every input array and every record in it, has the contents it had before; the
  sort of \<open>calculateDistributionStats\<close> works on a copy. The values returned are those of
  the functions on the contents of the input arrays.
\<close>

theorem inputs_unchanged:
  assumes "vals < length (numberArrays s)"
    and "recipeStats < length (statsArrays s)"
    and "sourceResults < length (resultArrays s)"
  shows "unchanged s (snd (calculateROIMetrics_st s recipeStats sourceResults))
    \<and> unchanged s (snd (enrichRecipeStats_st s recipeStats sourceResults))
    \<and> unchanged s (snd (aggregateByChangeType_st s recipeStats sourceResults))
    \<and> unchanged s (snd (calculateTimeSeries_st s sourceResults))
    \<and> unchanged s (snd (calculateDistributionStats_st s vals))
    \<and> fst (calculateROIMetrics_st s recipeStats sourceResults)
        = calculateROIMetrics (statsArrays s ! recipeStats) (resultArrays s ! sourceResults)
    \<and> fst (enrichRecipeStats_st s recipeStats sourceResults)
        = enrichRecipeStats (statsArrays s ! recipeStats) (resultArrays s ! sourceResults)
    \<and> fst (aggregateByChangeType_st s recipeStats sourceResults)
        = aggregateByChangeType (statsArrays s ! recipeStats) (resultArrays s ! sourceResults)
    \<and> fst (calculateTimeSeries_st s sourceResults)
        = calculateTimeSeries (resultArrays s ! sourceResults)
    \<and> fst (calculateDistributionStats_st s vals)
        = calculateDistributionStats (numberArrays s ! vals)"
proof -
  let ?P = "\<lambda>result. truthy (js_or (sourcePathAfter result) (sourcePathBefore result))"
  let ?s1 = "snd (filter_results s sourceResults ?P)"
  let ?s2 = "foldl (\<lambda>s' stats. snd (filter_results s' sourceResults
                       (\<lambda>result. recipeChanges result = recipe stats)))
                s (statsArrays s ! recipeStats)"
  have u1: "unchanged s ?s1" by (rule filter_results_unchanged)
  have u2: "unchanged s ?s2" by (rule filter_results_fold_unchanged)
  have roi_u: "unchanged s (snd (calculateROIMetrics_st s recipeStats sourceResults))"
    using u1 by (simp add: calculateROIMetrics_st_def case_prod_unfold Let_def)
  have roi_r: "fst (calculateROIMetrics_st s recipeStats sourceResults)
        = calculateROIMetrics (statsArrays s ! recipeStats) (resultArrays s ! sourceResults)"
    using unchanged_read(2,3) [OF u1] assms(2,3)
    by (simp add: calculateROIMetrics_st_def case_prod_unfold Let_def)
  have en_u: "unchanged s (snd (enrichRecipeStats_st s recipeStats sourceResults))"
    using u2 by (simp add: enrichRecipeStats_st_def Let_def)
  have en_r: "fst (enrichRecipeStats_st s recipeStats sourceResults)
        = enrichRecipeStats (statsArrays s ! recipeStats) (resultArrays s ! sourceResults)"
    using unchanged_read(2,3) [OF u2] assms(2,3)
    by (simp add: enrichRecipeStats_st_def Let_def)
  have ag_u: "unchanged s (snd (aggregateByChangeType_st s recipeStats sourceResults))"
    by (simp add: aggregateByChangeType_st_def unchanged_refl)
  have ag_r: "fst (aggregateByChangeType_st s recipeStats sourceResults)
        = aggregateByChangeType (statsArrays s ! recipeStats) (resultArrays s ! sourceResults)"
    by (simp add: aggregateByChangeType_st_def)
  have ts_u: "unchanged s (snd (calculateTimeSeries_st s sourceResults))"
    by (simp add: calculateTimeSeries_st_def from_entries_def sort_entries_def Let_def unchanged_def)
  have ts_r: "fst (calculateTimeSeries_st s sourceResults)
      = calculateTimeSeries (resultArrays s ! sourceResults)"
    by (simp add: calculateTimeSeries_st_def calculateTimeSeries_def from_entries_def
        sort_entries_def Let_def)
  show ?thesis
    using roi_u roi_r en_u en_r ag_u ag_r ts_u ts_r
      calculateDistributionStats_st_unchanged [OF assms(1)]
      calculateDistributionStats_st_result [OF assms(1)]
    by simp
qed

theorem inputs_unchanged_witness:
  "numberArrays (snd (calculateDistributionStats_st ex_store 0)) = [[3, 1, 2], [1, 2, 3]]
   \<and> unchanged ex_store (snd (calculateDistributionStats_st ex_store 0))
   \<and> median (fst (calculateDistributionStats_st ex_store 0)) = 2
   \<and> unchanged ex_store (snd (enrichRecipeStats_st ex_store 0 0))
   \<and> length (resultArrays (snd (enrichRecipeStats_st ex_store 0 0))) = 3
   \<and> map fst (entryArrays (snd (calculateTimeSeries_st ex_store 0)) ! 0) = [1, 2]
   \<and> resultArrays (snd (calculateTimeSeries_st ex_store 0)) = [[ex_gain_later, ex_gain]]"
  using inputs_unchanged [of 0 ex_store 0 0]
  by (simp add: ex_store_def calculateDistributionStats_st_def spread_numbers_def
      sort_numbers_def enrichRecipeStats_st_def filter_results_def Let_def
      calculateDistributionStats_def statsOf_def at_or_0_def Math_floor_def
      calculateTimeSeries_st_def from_entries_def sort_entries_def addCycleResult_def
      map_has_def set_add_def ex_gain_def ex_gain_later_def)


end
